theory Spec2Isabelle
  imports Complex_Main "HOL-Library.Sublist"
begin

section \<open>JavaScript values\<close>

text \<open>
  The fields of \<open>UpdateLoop\<close> hold JavaScript numbers, \<open>null\<close> or \<open>undefined\<close>.
  A number is a finite value or one of the three non-finite values; the non-finite ones
  decide several branches of the source, so they are part of the model. Finite values
  are rationals (every finite double is one) and arithmetic on them is exact: rounding
  and the sign of zero are not modelled.
\<close>

datatype jsnum = Fin rat | PInf | NInf | NaN

datatype jsval = Undefined | Null | Number jsnum

fun ToNumber :: "jsval \<Rightarrow> jsnum" where
  "ToNumber Undefined = NaN"
| "ToNumber Null = Fin 0"
| "ToNumber (Number n) = n"

fun ToBoolean :: "jsval \<Rightarrow> bool" where
  "ToBoolean Undefined = False"
| "ToBoolean Null = False"
| "ToBoolean (Number (Fin x)) = (x \<noteq> 0)"
| "ToBoolean (Number NaN) = False"
| "ToBoolean (Number PInf) = True"
| "ToBoolean (Number NInf) = True"

fun js_neg :: "jsnum \<Rightarrow> jsnum" where
  "js_neg (Fin x) = Fin (- x)"
| "js_neg PInf = NInf"
| "js_neg NInf = PInf"
| "js_neg NaN = NaN"

fun js_add :: "jsnum \<Rightarrow> jsnum \<Rightarrow> jsnum" where
  "js_add (Fin x) (Fin y) = Fin (x + y)"
| "js_add NaN _ = NaN"
| "js_add _ NaN = NaN"
| "js_add PInf NInf = NaN"
| "js_add NInf PInf = NaN"
| "js_add PInf _ = PInf"
| "js_add _ PInf = PInf"
| "js_add NInf _ = NInf"
| "js_add _ NInf = NInf"

definition js_sub :: "jsnum \<Rightarrow> jsnum \<Rightarrow> jsnum" where
  "js_sub a b = js_add a (js_neg b)"

fun js_div :: "jsnum \<Rightarrow> jsnum \<Rightarrow> jsnum" where
  "js_div (Fin x) (Fin y) =
     (if y = 0 then (if x = 0 then NaN else if 0 < x then PInf else NInf)
      else Fin (x / y))"
| "js_div NaN _ = NaN"
| "js_div _ NaN = NaN"
| "js_div (Fin x) PInf = Fin 0"
| "js_div (Fin x) NInf = Fin 0"
| "js_div PInf (Fin y) = (if 0 \<le> y then PInf else NInf)"
| "js_div NInf (Fin y) = (if 0 \<le> y then NInf else PInf)"
| "js_div PInf PInf = NaN"
| "js_div PInf NInf = NaN"
| "js_div NInf PInf = NaN"
| "js_div NInf NInf = NaN"

fun js_floor :: "jsnum \<Rightarrow> jsnum" where
  "js_floor (Fin x) = Fin (of_int \<lfloor>x\<rfloor>)"
| "js_floor PInf = PInf"
| "js_floor NInf = NInf"
| "js_floor NaN = NaN"

fun js_abs :: "jsnum \<Rightarrow> jsnum" where
  "js_abs (Fin x) = Fin \<bar>x\<bar>"
| "js_abs PInf = PInf"
| "js_abs NInf = PInf"
| "js_abs NaN = NaN"

text \<open>The relational operators \<open>>\<close> and \<open>>=\<close>: false as soon as one side is NaN.\<close>

fun js_gt :: "jsnum \<Rightarrow> jsnum \<Rightarrow> bool" where
  "js_gt (Fin x) (Fin y) = (y < x)"
| "js_gt NaN _ = False"
| "js_gt _ NaN = False"
| "js_gt PInf PInf = False"
| "js_gt PInf _ = True"
| "js_gt NInf _ = False"
| "js_gt (Fin x) PInf = False"
| "js_gt (Fin x) NInf = True"

fun js_ge :: "jsnum \<Rightarrow> jsnum \<Rightarrow> bool" where
  "js_ge (Fin x) (Fin y) = (y \<le> x)"
| "js_ge NaN _ = False"
| "js_ge _ NaN = False"
| "js_ge PInf _ = True"
| "js_ge NInf NInf = True"
| "js_ge NInf _ = False"
| "js_ge (Fin x) PInf = False"
| "js_ge (Fin x) NInf = True"

section \<open>Registrants, the loop object and the environment\<close>

text \<open>
  A registrant is a reference; what \<open>update\<close> probes of the object behind it is whether
  each of the three properties is a function and whether the object itself is one.
  Callbacks are opaque: an invocation is recorded in the trace, returns normally and does
  not call back into the loop.
\<close>

type_synonym ref = nat

record registrant =
  has_earlyUpdate :: bool
  has_update :: bool
  has_lateUpdate :: bool
  is_function :: bool

datatype phase = EarlyUpdate | Update | LateUpdate | Bare

datatype call = Invoke ref phase jsnum

text \<open>The two closures named \<open>update\<close> that the source hands to the timing primitives.\<close>

datatype callback = IntervalUpdate | RAFUpdate

text \<open>\<open>this.loop\<close>: the object literal built by createIntervalLoop or createRAFLoop.\<close>

record loopobj =
  kind :: callback
  loop_timer :: "nat option"
  raf :: "nat option"
  startTime :: jsval

record UpdateLoop =
  objects :: "ref list"
  active :: bool
  targetFPS :: jsval
  timer :: "nat option"
  frame :: jsnum
  mode :: jsval
  tolerance :: rat
  lastUpdate :: jsval
  totalJitter :: jsval
  jitter :: jsval
  droppedFrame :: "bool option"
  loop :: "loopobj option"

text \<open>
  The environment: the clock behind \<open>performance.now()\<close> (its successive readings), the
  recurring timers and refresh requests that are armed, the objects behind the
  references, the number of times \<open>update\<close> has been entered and the trace of the
  invocations it made.
\<close>

record env =
  clock :: "nat \<Rightarrow> rat"
  reads :: nat
  intervals :: "(nat \<times> jsnum \<times> callback) list"
  rafs :: "(nat \<times> callback) list"
  next_id :: nat
  heap :: "ref \<Rightarrow> registrant"
  dispatched :: nat
  trace :: "call list"

datatype error = InvalidModeError | TypeError

definition performance_now :: "env \<Rightarrow> jsnum \<times> env" where
  "performance_now e = (Fin (clock e (reads e)), e\<lparr>reads := reads e + 1\<rparr>)"

definition setInterval :: "callback \<Rightarrow> jsnum \<Rightarrow> env \<Rightarrow> nat \<times> env" where
  "setInterval cb d e =
     (next_id e, e\<lparr>intervals := intervals e @ [(next_id e, d, cb)], next_id := next_id e + 1\<rparr>)"

definition clearInterval :: "nat option \<Rightarrow> env \<Rightarrow> env" where
  "clearInterval h e =
     (case h of None \<Rightarrow> e
      | Some i \<Rightarrow> e\<lparr>intervals := filter (\<lambda>t. fst t \<noteq> i) (intervals e)\<rparr>)"

definition requestAnimationFrame :: "callback \<Rightarrow> env \<Rightarrow> nat \<times> env" where
  "requestAnimationFrame cb e =
     (next_id e, e\<lparr>rafs := rafs e @ [(next_id e, cb)], next_id := next_id e + 1\<rparr>)"

definition cancelAnimationFrame :: "nat option \<Rightarrow> env \<Rightarrow> env" where
  "cancelAnimationFrame h e =
     (case h of None \<Rightarrow> e
      | Some i \<Rightarrow> e\<lparr>rafs := filter (\<lambda>t. fst t \<noteq> i) (rafs e)\<rparr>)"

section \<open>The class UpdateLoop\<close>

definition INTERVAL :: jsval where
  "INTERVAL = Number (Fin 0)"

definition RAF :: jsval where
  "RAF = Number (Fin 1)"

text \<open>
  \<^verbatim>\<open>get delay() { return Math.floor(1000 / this.targetFPS); }\<close>
\<close>

definition delay :: "UpdateLoop \<Rightarrow> jsnum" where
  "delay this = js_floor (js_div (Fin 1000) (ToNumber (targetFPS this)))"

subsection \<open>update: the three phases\<close>

text \<open>
  The three loops of \<open>update\<close> over \<open>this.objects\<close>:
  \<^verbatim>\<open>
  for (const obj of this.objects) {
    if (obj.earlyUpdate && typeof obj.earlyUpdate === 'function') obj.earlyUpdate(deltaTime);
  }
  for (const obj of this.objects) {
    if (obj.update && typeof obj.update === 'function') obj.update(deltaTime);
    else if (typeof obj === 'function') obj(deltaTime);
  }
  for (const obj of this.objects) {
    if (typeof obj.lateUpdate === 'function') obj.lateUpdate(deltaTime);
  }
  \<close>
\<close>

primrec earlyUpdate_calls :: "(ref \<Rightarrow> registrant) \<Rightarrow> jsnum \<Rightarrow> ref list \<Rightarrow> call list" where
  "earlyUpdate_calls h dt [] = []"
| "earlyUpdate_calls h dt (obj # objs) =
     (if has_earlyUpdate (h obj) then [Invoke obj EarlyUpdate dt] else [])
     @ earlyUpdate_calls h dt objs"

primrec update_calls :: "(ref \<Rightarrow> registrant) \<Rightarrow> jsnum \<Rightarrow> ref list \<Rightarrow> call list" where
  "update_calls h dt [] = []"
| "update_calls h dt (obj # objs) =
     (if has_update (h obj) then [Invoke obj Update dt]
      else if is_function (h obj) then [Invoke obj Bare dt]
      else [])
     @ update_calls h dt objs"

primrec lateUpdate_calls :: "(ref \<Rightarrow> registrant) \<Rightarrow> jsnum \<Rightarrow> ref list \<Rightarrow> call list" where
  "lateUpdate_calls h dt [] = []"
| "lateUpdate_calls h dt (obj # objs) =
     (if has_lateUpdate (h obj) then [Invoke obj LateUpdate dt] else [])
     @ lateUpdate_calls h dt objs"

text \<open>
  \<^verbatim>\<open>
  update(now) {
    const deltaTime = now - this.lastUpdate;
    this.lastUpdate = now;
    this.jitter = Math.abs(deltaTime - this.delay);
    this.totalJitter += this.jitter;
    ... the three loops ...
  }
  \<close>
\<close>

definition update :: "jsnum \<Rightarrow> UpdateLoop \<Rightarrow> env \<Rightarrow> UpdateLoop \<times> env" where
  "update now this e =
     (let deltaTime = js_sub now (ToNumber (lastUpdate this));
          this1 = this\<lparr>lastUpdate := Number now\<rparr>;
          this2 = this1\<lparr>jitter := Number (js_abs (js_sub deltaTime (delay this1)))\<rparr>;
          this3 = this2\<lparr>totalJitter :=
                    Number (js_add (ToNumber (totalJitter this2)) (ToNumber (jitter this2)))\<rparr>;
          e1 = e\<lparr>dispatched := dispatched e + 1\<rparr>;
          e2 = e1\<lparr>trace := trace e1 @ earlyUpdate_calls (heap e1) deltaTime (objects this3)\<rparr>;
          e3 = e2\<lparr>trace := trace e2 @ update_calls (heap e2) deltaTime (objects this3)\<rparr>;
          e4 = e3\<lparr>trace := trace e3 @ lateUpdate_calls (heap e3) deltaTime (objects this3)\<rparr>
      in (this3, e4))"

text \<open>
  \<^verbatim>\<open>get averageJitter() { return this.totalJitter / this.frame; }\<close>
\<close>

definition averageJitter :: "UpdateLoop \<Rightarrow> jsnum" where
  "averageJitter this = js_div (ToNumber (totalJitter this)) (frame this)"

subsection \<open>register and unregister\<close>

text \<open>
  \<^verbatim>\<open>
  register(obj) { if (this.objects.includes(obj) === false) this.objects.push(obj); }
  unregister(obj) { this.objects = this.objects.filter((stored) => stored !== obj); }
  \<close>
  Registrants are objects or functions, so both comparisons are by reference.
\<close>

definition register :: "ref \<Rightarrow> UpdateLoop \<Rightarrow> UpdateLoop" where
  "register obj this =
     (if (obj \<in> set (objects this)) = False then this\<lparr>objects := objects this @ [obj]\<rparr>
      else this)"

definition unregister :: "ref \<Rightarrow> UpdateLoop \<Rightarrow> UpdateLoop" where
  "unregister obj this = this\<lparr>objects := filter (\<lambda>stored. stored \<noteq> obj) (objects this)\<rparr>"

subsection \<open>The two timing drivers\<close>

text \<open>
  Each of createIntervalLoop and createRAFLoop replaces \<open>this.loop\<close> by a new object with
  the methods start, update and stop; \<open>kind\<close> records which of the two it is, and the
  properties \<open>timer\<close>, \<open>raf\<close> and \<open>startTime\<close> are absent until assigned.
\<close>

definition createIntervalLoop :: "UpdateLoop \<Rightarrow> UpdateLoop" where
  "createIntervalLoop this =
     this\<lparr>loop := Some \<lparr>kind = IntervalUpdate, loop_timer = None, raf = None,
                         startTime = Undefined\<rparr>\<rparr>"

definition createRAFLoop :: "UpdateLoop \<Rightarrow> UpdateLoop" where
  "createRAFLoop this =
     this\<lparr>loop := Some \<lparr>kind = RAFUpdate, loop_timer = None, raf = None,
                         startTime = Undefined\<rparr>\<rparr>"

text \<open>
  \<^verbatim>\<open>update: () => { this.frame += 1; this.update(performance.now()); }\<close>
\<close>

definition interval_loop_update :: "UpdateLoop \<Rightarrow> env \<Rightarrow> UpdateLoop \<times> env" where
  "interval_loop_update this e =
     (let this1 = this\<lparr>frame := js_add (frame this) (Fin 1)\<rparr>;
          (now, e1) = performance_now e
      in update now this1 e1)"

text \<open>
  \<^verbatim>\<open>
  update: () => {
    const now = performance.now();
    var frame = Math.floor((now - this.loop.startTime) / this.delay);
    if (!this.targetFPS || frame > this.frame) {
      this.droppedFrame = this.frame - frame >= 2;
      this.frame = frame;
      this.update(now);
      this.lastUpdate = now;
    }
    this.loop.raf = requestAnimationFrame(this.loop.update);
  }
  \<close>
\<close>

definition raf_loop_update :: "UpdateLoop \<Rightarrow> env \<Rightarrow> error option \<times> UpdateLoop \<times> env" where
  "raf_loop_update this e =
     (let (now, e1) = performance_now e in
      case loop this of
        None \<Rightarrow> (Some TypeError, this, e1)
      | Some l \<Rightarrow>
         (let frame' = js_floor (js_div (js_sub now (ToNumber (startTime l))) (delay this));
              (this1, e2) =
                (if \<not> ToBoolean (targetFPS this) \<or> js_gt frame' (frame this) then
                   (let thisA = this\<lparr>droppedFrame :=
                                       Some (js_ge (js_sub (frame this) frame') (Fin 2))\<rparr>;
                        thisB = thisA\<lparr>frame := frame'\<rparr>;
                        (thisC, eC) = update now thisB e1
                    in (thisC\<lparr>lastUpdate := Number now\<rparr>, eC))
                 else (this, e1));
              (h, e3) = requestAnimationFrame (kind l) e2
          in (None, this1\<lparr>loop := Some (l\<lparr>raf := Some h\<rparr>)\<rparr>, e3)))"

text \<open>
  \<open>this.loop.start()\<close>:
  \<^verbatim>\<open>
  start: () => { this.loop.timer = setInterval(this.loop.update.bind(this), this.delay); }
  start: () => { this.loop.update(); this.loop.startTime = performance.now(); }
  \<close>
  and \<open>this.loop.stop()\<close>:
  \<^verbatim>\<open>
  stop: () => { clearInterval(this.loop.timer); }
  stop: () => { cancelAnimationFrame(this.loop.raf); }
  \<close>
\<close>

definition loop_start :: "UpdateLoop \<Rightarrow> env \<Rightarrow> error option \<times> UpdateLoop \<times> env" where
  "loop_start this e =
     (case loop this of
        None \<Rightarrow> (Some TypeError, this, e)
      | Some l \<Rightarrow>
         (case kind l of
            IntervalUpdate \<Rightarrow>
              (let (h, e1) = setInterval IntervalUpdate (delay this) e
               in (None, this\<lparr>loop := Some (l\<lparr>loop_timer := Some h\<rparr>)\<rparr>, e1))
          | RAFUpdate \<Rightarrow>
              (case raf_loop_update this e of
                 (Some err, this1, e1) \<Rightarrow> (Some err, this1, e1)
               | (None, this1, e1) \<Rightarrow>
                  (let (now, e2) = performance_now e1
                   in (None,
                       this1\<lparr>loop := map_option (\<lambda>l1. l1\<lparr>startTime := Number now\<rparr>) (loop this1)\<rparr>,
                       e2)))))"

definition loop_stop :: "UpdateLoop \<Rightarrow> env \<Rightarrow> error option \<times> env" where
  "loop_stop this e =
     (case loop this of
        None \<Rightarrow> (Some TypeError, e)
      | Some l \<Rightarrow>
         (case kind l of
            IntervalUpdate \<Rightarrow> (None, clearInterval (loop_timer l) e)
          | RAFUpdate \<Rightarrow> (None, cancelAnimationFrame (raf l) e)))"

subsection \<open>start, stop and the constructor\<close>

text \<open>
  \<^verbatim>\<open>
  start() {
    this.totalJitter = 0;
    this.frame = -1;
    if (this.timer === null) {
      this.lastUpdate = performance.now();
      switch(this.mode) {
        case UpdateLoop.INTERVAL: this.createIntervalLoop(); break;
        case UpdateLoop.RAF: this.createRAFLoop(); break;
        default: throw new Error('Invalid UpdateLoop Mode. ...');
      }
      this.active = true;
      this.loop.start();
    }
  }
  stop() { this.loop.stop(); this.active = false; this.frame = -1; }
  \<close>
  The field \<open>timer\<close> below is \<open>this.timer\<close>, which only the constructor assigns; the
  handle of the interval timer is \<open>this.loop.timer\<close> (\<open>loop_timer\<close>).
\<close>

definition start :: "UpdateLoop \<Rightarrow> env \<Rightarrow> error option \<times> UpdateLoop \<times> env" where
  "start this e =
     (let this1 = this\<lparr>totalJitter := Number (Fin 0)\<rparr>;
          this2 = this1\<lparr>frame := Fin (- 1)\<rparr>
      in if timer this2 = None then
           (let (now, e1) = performance_now e;
                this3 = this2\<lparr>lastUpdate := Number now\<rparr>
            in if mode this3 = INTERVAL then
                 loop_start ((createIntervalLoop this3)\<lparr>active := True\<rparr>) e1
               else if mode this3 = RAF then
                 loop_start ((createRAFLoop this3)\<lparr>active := True\<rparr>) e1
               else (Some InvalidModeError, this3, e1))
         else (None, this2, e))"

definition stop :: "UpdateLoop \<Rightarrow> env \<Rightarrow> error option \<times> UpdateLoop \<times> env" where
  "stop this e =
     (case loop_stop this e of
        (Some err, e1) \<Rightarrow> (Some err, this, e1)
      | (None, e1) \<Rightarrow> (None, this\<lparr>active := False, frame := Fin (- 1)\<rparr>, e1))"

text \<open>The fields as the constructor assigns them, before it calls \<open>start\<close>.\<close>

definition new_fields :: "jsval \<Rightarrow> jsval \<Rightarrow> UpdateLoop" where
  "new_fields targetFPS_arg mode_arg =
     \<lparr>objects = [], active = False,
      targetFPS = (if targetFPS_arg = Undefined then Number (Fin 60) else targetFPS_arg),
      timer = None, frame = Fin 0,
      mode = (if ToBoolean mode_arg then mode_arg else INTERVAL),
      tolerance = 1 / 10,
      lastUpdate = Undefined, totalJitter = Undefined, jitter = Undefined,
      droppedFrame = None, loop = None\<rparr>"

definition constructor :: "jsval \<Rightarrow> jsval \<Rightarrow> env \<Rightarrow> error option \<times> UpdateLoop \<times> env" where
  "constructor targetFPS_arg mode_arg e = start (new_fields targetFPS_arg mode_arg) e"

subsection \<open>The timing primitives firing\<close>

text \<open>
  A recurring timer fires its callback while it is armed; a refresh request fires once
  and is consumed. A handle that was cancelled, or never issued, runs nothing.
\<close>

definition run_callback :: "callback \<Rightarrow> UpdateLoop \<Rightarrow> env \<Rightarrow> error option \<times> UpdateLoop \<times> env" where
  "run_callback cb this e =
     (case cb of
        IntervalUpdate \<Rightarrow> (let (this1, e1) = interval_loop_update this e in (None, this1, e1))
      | RAFUpdate \<Rightarrow> raf_loop_update this e)"

definition fire_interval :: "nat \<Rightarrow> UpdateLoop \<Rightarrow> env \<Rightarrow> error option \<times> UpdateLoop \<times> env" where
  "fire_interval i this e =
     (case find (\<lambda>t. fst t = i) (intervals e) of
        None \<Rightarrow> (None, this, e)
      | Some t \<Rightarrow> run_callback (snd (snd t)) this e)"

definition fire_raf :: "nat \<Rightarrow> UpdateLoop \<Rightarrow> env \<Rightarrow> error option \<times> UpdateLoop \<times> env" where
  "fire_raf i this e =
     (case find (\<lambda>t. fst t = i) (rafs e) of
        None \<Rightarrow> (None, this, e)
      | Some t \<Rightarrow> run_callback (snd t) this (e\<lparr>rafs := filter (\<lambda>t. fst t \<noteq> i) (rafs e)\<rparr>))"

text \<open>
  One display refresh: every request pending when the frame begins is fired, in the
  order it was made; a request made during the frame waits for the next one. An error
  thrown by a callback is reported and the remaining callbacks still run; the first
  error is returned.
\<close>

primrec fire_rafs :: "nat list \<Rightarrow> UpdateLoop \<Rightarrow> env \<Rightarrow> error option \<times> UpdateLoop \<times> env" where
  "fire_rafs [] this e = (None, this, e)"
| "fire_rafs (i # is) this e =
     (case fire_raf i this e of
        (err, this1, e1) \<Rightarrow>
          (case fire_rafs is this1 e1 of
             (err', this2, e2) \<Rightarrow> (if err = None then err' else err, this2, e2)))"

definition refresh_signal :: "UpdateLoop \<Rightarrow> env \<Rightarrow> error option \<times> UpdateLoop \<times> env" where
  "refresh_signal this e = fire_rafs (map fst (rafs e)) this e"

text \<open>A page that has armed nothing yet.\<close>

definition fresh_env :: "(nat \<Rightarrow> rat) \<Rightarrow> (ref \<Rightarrow> registrant) \<Rightarrow> env" where
  "fresh_env clk h =
     \<lparr>clock = clk, reads = 0, intervals = [], rafs = [], next_id = 0, heap = h,
      dispatched = 0, trace = []\<rparr>"

subsection \<open>Sequences of calls\<close>

datatype op = Register ref | Unregister ref

fun apply_op :: "op \<Rightarrow> UpdateLoop \<Rightarrow> UpdateLoop" where
  "apply_op (Register obj) this = register obj this"
| "apply_op (Unregister obj) this = unregister obj this"

definition apply_ops :: "op list \<Rightarrow> UpdateLoop \<Rightarrow> UpdateLoop" where
  "apply_ops ops this = fold apply_op ops this"

text \<open>
  A run of timer firings of one handle, and a run of display refreshes. An error thrown
  inside a callback does not disarm the primitive; the first error is returned.
\<close>

primrec timer_firings :: "nat \<Rightarrow> nat \<Rightarrow> UpdateLoop \<Rightarrow> env \<Rightarrow> error option \<times> UpdateLoop \<times> env" where
  "timer_firings 0 i this e = (None, this, e)"
| "timer_firings (Suc n) i this e =
     (case timer_firings n i this e of
        (err, this1, e1) \<Rightarrow>
          (case fire_interval i this1 e1 of
             (err', this2, e2) \<Rightarrow> (if err = None then err' else err, this2, e2)))"

primrec refresh_signals :: "nat \<Rightarrow> UpdateLoop \<Rightarrow> env \<Rightarrow> error option \<times> UpdateLoop \<times> env" where
  "refresh_signals 0 this e = (None, this, e)"
| "refresh_signals (Suc n) this e =
     (case refresh_signals n this e of
        (err, this1, e1) \<Rightarrow>
          (case refresh_signal this1 e1 of
             (err', this2, e2) \<Rightarrow> (if err = None then err' else err, this2, e2)))"

subsection \<open>Invariants and sample inputs\<close>

text \<open>
  The fixed-interval loop built with a target of 60 on a clock whose readings advance in
  steps of 16, after \<open>n\<close> firings of its timer.
\<close>

definition interval_inv :: "rat \<Rightarrow> nat \<Rightarrow> UpdateLoop \<Rightarrow> env \<Rightarrow> bool" where
  "interval_inv t n this e =
     (targetFPS this = Number (Fin 60) \<and> lastUpdate this = Number (Fin (t + 16 * of_nat n))
      \<and> frame this = Fin (of_nat n - 1)
      \<and> jitter this = (if n = 0 then Undefined else Number (Fin 0))
      \<and> intervals e = [(0, Fin 16, IntervalUpdate)]
      \<and> clock e = (\<lambda>k. t + 16 * of_nat k) \<and> reads e = Suc n)"

text \<open>The refresh-sync loop with exactly its own request pending.\<close>

definition raf_armed :: "UpdateLoop \<Rightarrow> env \<Rightarrow> bool" where
  "raf_armed this e =
     (case loop this of
        None \<Rightarrow> False
      | Some l \<Rightarrow> kind l = RAFUpdate \<and>
          (case raf l of None \<Rightarrow> False | Some i \<Rightarrow> rafs e = [(i, RAFUpdate)]))"

text \<open>Objects that define all three phases.\<close>

definition all_phases :: "ref \<Rightarrow> registrant" where
  "all_phases = (\<lambda>_. \<lparr>has_earlyUpdate = True, has_update = True, has_lateUpdate = True,
                       is_function = False\<rparr>)"

text \<open>
  A clock that reads 0 during \<open>start\<close>, 16 at the first refresh and 64 at the second.
\<close>

definition late_clock :: "nat \<Rightarrow> rat" where
  "late_clock k = (if k < 3 then 0 else if k = 3 then 16 else 64)"

section \<open>Evaluation\<close>

lemma floor_rat_numeral_divide [simp]:
  "\<lfloor>numeral a / numeral b :: rat\<rfloor> = numeral a div numeral b"
  using floor_divide_of_int_eq [of "numeral a" "numeral b", where ?'a = rat] by simp

lemmas loop_defs =
  constructor_def new_fields_def start_def stop_def INTERVAL_def RAF_def fresh_env_def
  performance_now_def setInterval_def clearInterval_def requestAnimationFrame_def
  cancelAnimationFrame_def createIntervalLoop_def createRAFLoop_def loop_start_def
  loop_stop_def raf_loop_update_def interval_loop_update_def update_def delay_def
  fire_interval_def fire_raf_def run_callback_def refresh_signal_def js_sub_def
  averageJitter_def register_def unregister_def Let_def

section \<open>The registered set\<close>

lemma objects_register:
  "objects (register x this) =
     (if x \<in> set (objects this) then objects this else objects this @ [x])"
  by (simp add: register_def)

lemma objects_unregister:
  "objects (unregister x this) = filter (\<lambda>stored. stored \<noteq> x) (objects this)"
  by (simp add: unregister_def)

lemma distinct_apply_op:
  "distinct (objects this) \<Longrightarrow> distinct (objects (apply_op a this))"
  by (cases a) (simp_all add: objects_register objects_unregister)

lemma distinct_apply_ops:
  "distinct (objects this) \<Longrightarrow> distinct (objects (apply_ops ops this))"
  unfolding apply_ops_def
  by (induction ops arbitrary: this) (simp_all add: distinct_apply_op)

lemma absent_apply_op:
  "x \<notin> set (objects this) \<Longrightarrow> a \<noteq> Register x \<Longrightarrow> x \<notin> set (objects (apply_op a this))"
  by (cases a) (auto simp: objects_register objects_unregister)

lemma absent_apply_ops:
  "x \<notin> set (objects this) \<Longrightarrow> Register x \<notin> set ops
     \<Longrightarrow> x \<notin> set (objects (apply_ops ops this))"
  unfolding apply_ops_def
proof (induction ops arbitrary: this)
  case Nil
  then show ?case by simp
next
  case (Cons a ops)
  from Cons.prems have "x \<notin> set (objects (apply_op a this))"
    by (intro absent_apply_op) auto
  with Cons show ?case by simp
qed

lemma unregistered_stays_out:
  assumes "Register x \<notin> set post"
  shows "x \<notin> set (objects (apply_ops (pre @ Unregister x # post) this))"
proof -
  let ?mid = "unregister x (apply_ops pre this)"
  have split: "apply_ops (pre @ Unregister x # post) this = apply_ops post ?mid"
    by (simp add: apply_ops_def)
  have "x \<notin> set (objects ?mid)"
    by (simp add: objects_unregister)
  then show ?thesis
    unfolding split using assms by (rule absent_apply_ops)
qed

lemma unregister_absent: "x \<notin> set (objects this) \<Longrightarrow> unregister x this = this"
proof -
  assume "x \<notin> set (objects this)"
  then have "filter (\<lambda>stored. stored \<noteq> x) (objects this) = objects this"
    by (induction "objects this") (auto simp: filter_id_conv)
  then show ?thesis by (simp add: unregister_def)
qed

text \<open>
  C8. Whatever sequence of register and unregister calls is applied to a loop whose set
  has no duplicates (in particular the empty set of a new loop), the set has no
  duplicates afterwards, and a registrant that was unregistered and not registered again
  since is not in it. register appends at the end exactly when the registrant is absent
  and changes nothing otherwise; unregister removes the registrant, changes nothing when
  it is absent, and leaves the other registrants in their order.
\<close>

theorem registered_set_invariant:
  assumes "distinct (objects this)"
  shows "distinct (objects (apply_ops ops this))
    \<and> (\<forall>pre post. ops = pre @ Unregister x # post \<and> Register x \<notin> set post
          \<longrightarrow> x \<notin> set (objects (apply_ops ops this)))
    \<and> (x \<notin> set (objects this) \<longrightarrow> objects (register x this) = objects this @ [x])
    \<and> (x \<in> set (objects this) \<longrightarrow> register x this = this)
    \<and> set (objects (unregister x this)) = set (objects this) - {x}
    \<and> subseq (objects (unregister x this)) (objects this)
    \<and> (x \<notin> set (objects this) \<longrightarrow> unregister x this = this)"
proof -
  have "distinct (objects (apply_ops ops this))"
    using assms by (rule distinct_apply_ops)
  moreover have "\<forall>pre post. ops = pre @ Unregister x # post \<and> Register x \<notin> set post
          \<longrightarrow> x \<notin> set (objects (apply_ops ops this))"
    using unregistered_stays_out by blast
  moreover have "x \<notin> set (objects this) \<longrightarrow> objects (register x this) = objects this @ [x]"
    by (simp add: objects_register)
  moreover have "x \<in> set (objects this) \<longrightarrow> register x this = this"
    by (simp add: register_def)
  moreover have "set (objects (unregister x this)) = set (objects this) - {x}"
    by (auto simp: objects_unregister)
  moreover have "subseq (objects (unregister x this)) (objects this)"
    by (simp add: objects_unregister)
  moreover have "x \<notin> set (objects this) \<longrightarrow> unregister x this = this"
    using unregister_absent by blast
  ultimately show ?thesis by blast
qed

theorem registered_set_invariant_witness:
  "objects (apply_ops [Register 1, Register 2, Register 1, Unregister 1, Register 3]
              (new_fields Undefined Undefined)) = [2, 3]
   \<and> distinct (objects (apply_ops [Register 1, Register 2, Register 1, Unregister 1, Register 3]
              (new_fields Undefined Undefined)))
   \<and> 1 \<notin> set (objects (apply_ops [Register 1, Register 2, Register 1, Unregister 1, Register 3]
              (new_fields Undefined Undefined)))"
proof -
  have d: "distinct (objects (new_fields Undefined Undefined))"
    by (simp add: new_fields_def)
  have ops: "[Register 1, Register 2, Register 1, Unregister 1, Register 3]
             = [Register 1, Register 2, Register 1] @ Unregister 1 # [Register 3]
           \<and> Register 1 \<notin> set [Register 3]"
    by simp
  have run: "objects (apply_ops [Register 1, Register 2, Register 1, Unregister 1, Register 3]
              (new_fields Undefined Undefined)) = [2, 3]"
    by (simp add: apply_ops_def new_fields_def register_def unregister_def)
  from registered_set_invariant [OF d,
      of "[Register 1, Register 2, Register 1, Unregister 1, Register 3]" 1] ops run
  show ?thesis by blast
qed

section \<open>Dispatch\<close>

lemma earlyUpdate_calls_filter:
  "earlyUpdate_calls h dt objs =
     map (\<lambda>obj. Invoke obj EarlyUpdate dt) (filter (\<lambda>obj. has_earlyUpdate (h obj)) objs)"
  by (induction objs) simp_all

lemma lateUpdate_calls_filter:
  "lateUpdate_calls h dt objs =
     map (\<lambda>obj. Invoke obj LateUpdate dt) (filter (\<lambda>obj. has_lateUpdate (h obj)) objs)"
  by (induction objs) simp_all

lemma update_calls_concat:
  "update_calls h dt objs =
     concat (map (\<lambda>obj. if has_update (h obj) then [Invoke obj Update dt]
                         else if is_function (h obj) then [Invoke obj Bare dt] else []) objs)"
  by (induction objs) simp_all

lemma trace_update:
  "trace (snd (update now this e)) =
     trace e @ earlyUpdate_calls (heap e) (js_sub now (ToNumber (lastUpdate this))) (objects this)
       @ update_calls (heap e) (js_sub now (ToNumber (lastUpdate this))) (objects this)
       @ lateUpdate_calls (heap e) (js_sub now (ToNumber (lastUpdate this))) (objects this)"
  by (simp add: update_def Let_def)

text \<open>
  C5. One call of \<open>update\<close> appends to the trace, in this order: the earlyUpdate calls
  of all registrants that have one, in the order of the registered set; then the update
  calls (or the bare call of a function registrant); then the lateUpdate calls; each with
  deltaTime. For three registrants a, b, c that define all three phases the calls of one
  tick are a.early, b.early, c.early, a.update, b.update, c.update, a.late, b.late,
  c.late.
\<close>

theorem dispatch_phase_order:
  "(let deltaTime = js_sub now (ToNumber (lastUpdate this)) in
    trace (snd (update now this e)) =
       trace e
       @ map (\<lambda>obj. Invoke obj EarlyUpdate deltaTime)
           (filter (\<lambda>obj. has_earlyUpdate (heap e obj)) (objects this))
       @ concat (map (\<lambda>obj. if has_update (heap e obj) then [Invoke obj Update deltaTime]
                             else if is_function (heap e obj) then [Invoke obj Bare deltaTime]
                             else []) (objects this))
       @ map (\<lambda>obj. Invoke obj LateUpdate deltaTime)
           (filter (\<lambda>obj. has_lateUpdate (heap e obj)) (objects this))
    \<and> (objects this = [a, b, c]
         \<and> list_all (\<lambda>obj. has_earlyUpdate (heap e obj) \<and> has_update (heap e obj)
                            \<and> has_lateUpdate (heap e obj)) [a, b, c]
       \<longrightarrow> trace (snd (update now this e)) =
             trace e @ [Invoke a EarlyUpdate deltaTime, Invoke b EarlyUpdate deltaTime,
                        Invoke c EarlyUpdate deltaTime,
                        Invoke a Update deltaTime, Invoke b Update deltaTime,
                        Invoke c Update deltaTime,
                        Invoke a LateUpdate deltaTime, Invoke b LateUpdate deltaTime,
                        Invoke c LateUpdate deltaTime]))"
  unfolding trace_update Let_def
  by (simp add: earlyUpdate_calls_filter lateUpdate_calls_filter update_calls_concat)

theorem dispatch_phase_order_witness:
  "trace (snd (update (Fin 20)
                ((new_fields Undefined Undefined)\<lparr>objects := [1, 2, 3],
                                                   lastUpdate := Number (Fin 4)\<rparr>)
                (fresh_env (\<lambda>n. 0) all_phases))) =
     [Invoke 1 EarlyUpdate (Fin 16), Invoke 2 EarlyUpdate (Fin 16), Invoke 3 EarlyUpdate (Fin 16),
      Invoke 1 Update (Fin 16), Invoke 2 Update (Fin 16), Invoke 3 Update (Fin 16),
      Invoke 1 LateUpdate (Fin 16), Invoke 2 LateUpdate (Fin 16), Invoke 3 LateUpdate (Fin 16)]"
  using dispatch_phase_order [of "Fin 20"
      "(new_fields Undefined Undefined)\<lparr>objects := [1, 2, 3], lastUpdate := Number (Fin 4)\<rparr>"
      "fresh_env (\<lambda>n. 0) all_phases" 1 2 3]
  by (simp add: fresh_env_def all_phases_def js_sub_def Let_def)

section \<open>The fixed-interval driver\<close>

lemma interval_inv_start:
  "case constructor (Number (Fin 60)) INTERVAL (fresh_env (\<lambda>k. t + 16 * of_nat k) h) of
     (err, this, e) \<Rightarrow> err = None \<and> interval_inv t 0 this e"
  by (simp add: constructor_def new_fields_def start_def INTERVAL_def RAF_def fresh_env_def
      performance_now_def createIntervalLoop_def loop_start_def setInterval_def delay_def
      interval_inv_def Let_def)

lemma interval_inv_step:
  assumes "interval_inv t n this e"
  shows "case fire_interval 0 this e of
     (err, this', e') \<Rightarrow> err = None \<and> interval_inv t (Suc n) this' e'"
  using assms
  by (simp add: interval_inv_def fire_interval_def run_callback_def interval_loop_update_def
      performance_now_def update_def delay_def js_sub_def Let_def algebra_simps)

lemma interval_inv_run:
  assumes "interval_inv t 0 this e"
  shows "case timer_firings n 0 this e of
     (err, this', e') \<Rightarrow> err = None \<and> interval_inv t n this' e'"
proof (induction n)
  case 0
  then show ?case using assms by simp
next
  case (Suc n)
  obtain err this1 e1 where r: "timer_firings n 0 this e = (err, this1, e1)"
    by (cases "timer_firings n 0 this e") auto
  with Suc have inv: "err = None" "interval_inv t n this1 e1" by auto
  from interval_inv_step [OF inv(2)] r inv(1) show ?case
    by (auto split: prod.splits)
qed

text \<open>
  C9. A loop built with a target of 60 in fixed-interval mode, on a clock whose readings
  advance by 16 from one reading to the next: construction arms one timer with the delay
  \<open>floor (1000 / 60)\<close>; after N firings of it \<open>frame\<close> is N - 1, and the jitter of
  every tick is \<open>|16 - floor (1000 / 60)|\<close>.
\<close>

theorem fixed_interval_frame_and_jitter:
  "case constructor (Number (Fin 60)) INTERVAL (fresh_env (\<lambda>k. t + 16 * of_nat k) h) of
     (err0, this0, e0) \<Rightarrow>
       err0 = None \<and> intervals e0 = [(0, delay this0, IntervalUpdate)] \<and>
       (case timer_firings N 0 this0 e0 of
          (err, this, e) \<Rightarrow>
            err = None \<and> frame this = Fin (of_nat N - 1)
            \<and> (0 < N \<longrightarrow> jitter this = Number (Fin \<bar>16 - of_int \<lfloor>1000 / 60 :: rat\<rfloor>\<bar>)))"
proof -
  obtain err0 this0 e0 where
    c: "constructor (Number (Fin 60)) INTERVAL (fresh_env (\<lambda>k. t + 16 * of_nat k) h) = (err0, this0, e0)"
    by (cases "constructor (Number (Fin 60)) INTERVAL (fresh_env (\<lambda>k. t + 16 * of_nat k) h)") auto
  with interval_inv_start [of t h] have i0: "err0 = None" "interval_inv t 0 this0 e0" by auto
  obtain err this e where r: "timer_firings N 0 this0 e0 = (err, this, e)"
    by (cases "timer_firings N 0 this0 e0") auto
  with interval_inv_run [OF i0(2), of N] have iN: "err = None" "interval_inv t N this e" by auto
  from i0 iN show ?thesis
    by (simp add: c r interval_inv_def delay_def)
qed

theorem fixed_interval_frame_and_jitter_witness:
  "case constructor (Number (Fin 60)) INTERVAL (fresh_env (\<lambda>k. 16 * of_nat k) all_phases) of
     (err0, this0, e0) \<Rightarrow>
       (case timer_firings 3 0 this0 e0 of
          (err, this, e) \<Rightarrow>
            (0 :: nat) < 3 \<and> err = None \<and> frame this = Fin 2 \<and> jitter this = Number (Fin 0))"
  using fixed_interval_frame_and_jitter [where t = 0 and h = all_phases and N = 3]
  by (simp split: prod.splits)


section \<open>The refresh-sync driver with a falsy rate\<close>

lemma raf_loop_update_falsy:
  assumes "\<not> ToBoolean (targetFPS this)" "loop this = Some l"
  shows "case raf_loop_update this e of
     (err, this', e') \<Rightarrow> err = None \<and> dispatched e' = Suc (dispatched e)
        \<and> targetFPS this' = targetFPS this
        \<and> loop this' = Some (l\<lparr>raf := Some (next_id e)\<rparr>)
        \<and> rafs e' = rafs e @ [(next_id e, kind l)]"
  using assms
  by (simp add: raf_loop_update_def performance_now_def requestAnimationFrame_def Let_def
      update_def split: prod.splits)

lemma refresh_signal_falsy:
  assumes "\<not> ToBoolean (targetFPS this)" "raf_armed this e"
  shows "case refresh_signal this e of
     (err, this', e') \<Rightarrow> err = None \<and> dispatched e' = Suc (dispatched e)
        \<and> targetFPS this' = targetFPS this \<and> raf_armed this' e'"
proof -
  from assms(2) obtain l i where l: "loop this = Some l" "kind l = RAFUpdate"
      "raf l = Some i" "rafs e = [(i, RAFUpdate)]"
    by (auto simp: raf_armed_def split: option.splits)
  let ?e = "e\<lparr>rafs := []\<rparr>"
  have "refresh_signal this e = raf_loop_update this ?e"
    using l by (simp add: refresh_signal_def fire_raf_def run_callback_def split: prod.splits)
  with raf_loop_update_falsy [OF assms(1) l(1), of ?e] l show ?thesis
    by (auto simp: raf_armed_def split: prod.splits)
qed

lemma refresh_signals_falsy:
  assumes "\<not> ToBoolean (targetFPS this)" "raf_armed this e"
  shows "case refresh_signals n this e of
     (err, this', e') \<Rightarrow> err = None \<and> dispatched e' = dispatched e + n
        \<and> targetFPS this' = targetFPS this \<and> raf_armed this' e'"
proof (induction n)
  case 0
  then show ?case using assms by simp
next
  case (Suc n)
  obtain err this1 e1 where r: "refresh_signals n this e = (err, this1, e1)"
    by (cases "refresh_signals n this e") auto
  with Suc have ih: "err = None" "dispatched e1 = dispatched e + n"
      "targetFPS this1 = targetFPS this" "raf_armed this1 e1"
    by auto
  from ih(3) assms(1) have "\<not> ToBoolean (targetFPS this1)" by simp
  from refresh_signal_falsy [OF this ih(4)] r ih show ?case
    by (auto split: prod.splits)
qed

lemma constructor_RAF_falsy:
  assumes "\<not> ToBoolean rate" "rate \<noteq> Undefined"
  shows "case constructor rate RAF (fresh_env clk h) of
     (err, this, e) \<Rightarrow> err = None \<and> dispatched e = 1 \<and> targetFPS this = rate
        \<and> raf_armed this e"
  using assms
  by (simp add: constructor_def new_fields_def start_def INTERVAL_def RAF_def fresh_env_def
      performance_now_def createRAFLoop_def loop_start_def raf_loop_update_def
      requestAnimationFrame_def update_def raf_armed_def Let_def split: prod.splits)

text \<open>A rate of 0 against a rate of \<open>null\<close>: the same run, but for the field itself.\<close>

lemma raf_loop_update_retarget:
  "targetFPS this = Null \<Longrightarrow>
   raf_loop_update (this\<lparr>targetFPS := Number (Fin 0)\<rparr>) e =
     (case raf_loop_update this e of
        (err, this', e') \<Rightarrow> (err, this'\<lparr>targetFPS := Number (Fin 0)\<rparr>, e'))"
  by (simp add: raf_loop_update_def update_def delay_def performance_now_def
      requestAnimationFrame_def Let_def split: option.splits)

lemma interval_loop_update_retarget:
  "targetFPS this = Null \<Longrightarrow>
   interval_loop_update (this\<lparr>targetFPS := Number (Fin 0)\<rparr>) e =
     (case interval_loop_update this e of
        (this', e') \<Rightarrow> (this'\<lparr>targetFPS := Number (Fin 0)\<rparr>, e'))"
  by (simp add: interval_loop_update_def update_def delay_def performance_now_def Let_def)

lemma run_callback_retarget:
  "targetFPS this = Null \<Longrightarrow>
   run_callback cb (this\<lparr>targetFPS := Number (Fin 0)\<rparr>) e =
     (case run_callback cb this e of
        (err, this', e') \<Rightarrow> (err, this'\<lparr>targetFPS := Number (Fin 0)\<rparr>, e'))"
  by (cases cb)
     (simp_all add: run_callback_def raf_loop_update_retarget interval_loop_update_retarget
        split: prod.splits)

lemma fire_raf_retarget:
  "targetFPS this = Null \<Longrightarrow>
   fire_raf i (this\<lparr>targetFPS := Number (Fin 0)\<rparr>) e =
     (case fire_raf i this e of
        (err, this', e') \<Rightarrow> (err, this'\<lparr>targetFPS := Number (Fin 0)\<rparr>, e'))"
  by (simp add: fire_raf_def run_callback_retarget split: option.splits)

lemma targetFPS_raf_loop_update:
  "targetFPS (fst (snd (raf_loop_update this e))) = targetFPS this"
  by (simp add: raf_loop_update_def update_def performance_now_def requestAnimationFrame_def
      Let_def split: option.splits)

lemma targetFPS_interval_loop_update:
  "targetFPS (fst (interval_loop_update this e)) = targetFPS this"
  by (simp add: interval_loop_update_def update_def performance_now_def Let_def)

lemma targetFPS_run_callback:
  "targetFPS (fst (snd (run_callback cb this e))) = targetFPS this"
  by (cases cb)
     (simp_all add: run_callback_def targetFPS_raf_loop_update targetFPS_interval_loop_update
        split: prod.splits)

lemma targetFPS_fire_raf: "targetFPS (fst (snd (fire_raf i this e))) = targetFPS this"
  by (simp add: fire_raf_def targetFPS_run_callback split: option.splits)

lemma fire_rafs_retarget:
  "targetFPS this = Null \<Longrightarrow>
   fire_rafs is (this\<lparr>targetFPS := Number (Fin 0)\<rparr>) e =
     (case fire_rafs is this e of
        (err, this', e') \<Rightarrow> (err, this'\<lparr>targetFPS := Number (Fin 0)\<rparr>, e'))"
proof (induction "is" arbitrary: this e)
  case Nil
  then show ?case by simp
next
  case (Cons i "is")
  obtain err this1 e1 where f: "fire_raf i this e = (err, this1, e1)"
    by (cases "fire_raf i this e") auto
  from targetFPS_fire_raf [of i this e] f Cons.prems have "targetFPS this1 = Null" by simp
  from Cons.IH [OF this, of e1] f Cons.prems show ?case
    by (simp add: fire_raf_retarget split: prod.splits)
qed

lemma targetFPS_fire_rafs: "targetFPS (fst (snd (fire_rafs is this e))) = targetFPS this"
proof (induction "is" arbitrary: this e)
  case Nil
  then show ?case by simp
next
  case (Cons i "is")
  obtain err this1 e1 where f: "fire_raf i this e = (err, this1, e1)"
    by (cases "fire_raf i this e") auto
  from targetFPS_fire_raf [of i this e] f have "targetFPS this1 = targetFPS this" by simp
  with Cons.IH [of this1 e1] f show ?case
    by (auto split: prod.splits)
qed

lemma refresh_signals_retarget:
  "targetFPS this = Null \<Longrightarrow>
   refresh_signals n (this\<lparr>targetFPS := Number (Fin 0)\<rparr>) e =
     (case refresh_signals n this e of
        (err, this', e') \<Rightarrow> (err, this'\<lparr>targetFPS := Number (Fin 0)\<rparr>, e'))
   \<and> targetFPS (fst (snd (refresh_signals n this e))) = Null"
proof (induction n)
  case 0
  then show ?case by simp
next
  case (Suc n)
  obtain err this1 e1 where r: "refresh_signals n this e = (err, this1, e1)"
    by (cases "refresh_signals n this e") auto
  with Suc have t1: "targetFPS this1 = Null" by simp
  from Suc r t1 targetFPS_fire_rafs [of "map fst (rafs e1)" this1 e1] show ?case
    by (auto simp: refresh_signal_def fire_rafs_retarget split: prod.splits)
qed

lemma constructor_retarget:
  "constructor (Number (Fin 0)) RAF e =
     (case constructor Null RAF e of
        (err, this, e') \<Rightarrow> (err, this\<lparr>targetFPS := Number (Fin 0)\<rparr>, e'))
   \<and> targetFPS (fst (snd (constructor Null RAF e))) = Null"
  by (simp add: constructor_def new_fields_def start_def INTERVAL_def RAF_def
      performance_now_def createRAFLoop_def loop_start_def raf_loop_update_def
      requestAnimationFrame_def update_def delay_def Let_def split: prod.splits)

text \<open>
  C10. In refresh-sync mode every falsy target rate (0, \<open>null\<close>, \<open>undefined\<close>, NaN)
  passes the eligibility check: the driver's update dispatches exactly once and raises
  nothing. A loop built with the rate 0 dispatches once during construction and once per
  display refresh, and its run is the run of the loop built with \<open>null\<close>, the field
  \<open>targetFPS\<close> apart.
\<close>

theorem zero_rate_is_uncapped:
  "(\<not> ToBoolean (targetFPS this) \<and> loop this = Some l \<longrightarrow>
      (case raf_loop_update this e of
         (err, this', e') \<Rightarrow> err = None \<and> dispatched e' = dispatched e + 1))
   \<and> (case constructor (Number (Fin 0)) RAF (fresh_env clk h) of
         (err0, this0, e0) \<Rightarrow>
           err0 = None \<and> dispatched e0 = 1 \<and>
           (case refresh_signals n this0 e0 of
              (err, this', e') \<Rightarrow> err = None \<and> dispatched e' = 1 + n))
   \<and> (case constructor Null RAF (fresh_env clk h) of
         (errN, thisN, eN) \<Rightarrow>
           (case refresh_signals n thisN eN of
              (err, this', e') \<Rightarrow>
                (case constructor (Number (Fin 0)) RAF (fresh_env clk h) of
                   (err0, this0, e0) \<Rightarrow>
                     err0 = errN \<and>
                     refresh_signals n this0 e0 =
                       (err, this'\<lparr>targetFPS := Number (Fin 0)\<rparr>, e'))))"
proof (intro conjI)
  show "\<not> ToBoolean (targetFPS this) \<and> loop this = Some l \<longrightarrow>
      (case raf_loop_update this e of
         (err, this', e') \<Rightarrow> err = None \<and> dispatched e' = dispatched e + 1)"
    using raf_loop_update_falsy [of this l e] by (auto split: prod.splits)
next
  obtain err0 this0 e0 where
    c: "constructor (Number (Fin 0)) RAF (fresh_env clk h) = (err0, this0, e0)"
    by (cases "constructor (Number (Fin 0)) RAF (fresh_env clk h)") auto
  with constructor_RAF_falsy [of "Number (Fin 0)" clk h]
  have s0: "err0 = None" "dispatched e0 = 1" "targetFPS this0 = Number (Fin 0)"
      "raf_armed this0 e0"
    by auto
  from s0(3) have "\<not> ToBoolean (targetFPS this0)" by simp
  from refresh_signals_falsy [OF this s0(4), of n] s0
  show "case constructor (Number (Fin 0)) RAF (fresh_env clk h) of
         (err0, this0, e0) \<Rightarrow>
           err0 = None \<and> dispatched e0 = 1 \<and>
           (case refresh_signals n this0 e0 of
              (err, this', e') \<Rightarrow> err = None \<and> dispatched e' = 1 + n)"
    by (auto simp: c split: prod.splits)
next
  obtain errN thisN eN where
    c: "constructor Null RAF (fresh_env clk h) = (errN, thisN, eN)"
    by (cases "constructor Null RAF (fresh_env clk h)") auto
  with constructor_retarget [of "fresh_env clk h"]
  have z: "constructor (Number (Fin 0)) RAF (fresh_env clk h)
             = (errN, thisN\<lparr>targetFPS := Number (Fin 0)\<rparr>, eN)"
    and t: "targetFPS thisN = Null"
    by auto
  from refresh_signals_retarget [OF t, of n eN]
  show "case constructor Null RAF (fresh_env clk h) of
         (errN, thisN, eN) \<Rightarrow>
           (case refresh_signals n thisN eN of
              (err, this', e') \<Rightarrow>
                (case constructor (Number (Fin 0)) RAF (fresh_env clk h) of
                   (err0, this0, e0) \<Rightarrow>
                     err0 = errN \<and>
                     refresh_signals n this0 e0 =
                       (err, this'\<lparr>targetFPS := Number (Fin 0)\<rparr>, e')))"
    by (auto simp: c z split: prod.splits)
qed

theorem zero_rate_is_uncapped_witness:
  "(case raf_loop_update (createRAFLoop (new_fields (Number (Fin 0)) RAF))
           (fresh_env (\<lambda>k. of_nat k) all_phases) of
      (err, this', e') \<Rightarrow> err = None \<and> dispatched e' = 1)
   \<and> (case constructor (Number (Fin 0)) RAF (fresh_env (\<lambda>k. of_nat k) all_phases) of
      (err0, this0, e0) \<Rightarrow>
        (case refresh_signals 2 this0 e0 of
           (err, this', e') \<Rightarrow> err = None \<and> dispatched e' = 3))"
proof -
  have pre: "\<not> ToBoolean (targetFPS (createRAFLoop (new_fields (Number (Fin 0)) RAF)))
      \<and> loop (createRAFLoop (new_fields (Number (Fin 0)) RAF))
          = Some \<lparr>kind = RAFUpdate, loop_timer = None, raf = None, startTime = Undefined\<rparr>"
    by (simp add: createRAFLoop_def new_fields_def)
  have d0: "dispatched (fresh_env (\<lambda>k. of_nat k) all_phases) = 0"
    by (simp add: fresh_env_def)
  from zero_rate_is_uncapped [where ?this = "createRAFLoop (new_fields (Number (Fin 0)) RAF)"
      and l = "\<lparr>kind = RAFUpdate, loop_timer = None, raf = None, startTime = Undefined\<rparr>"
      and e = "fresh_env (\<lambda>k. of_nat k) all_phases" and clk = "\<lambda>k. of_nat k"
      and h = all_phases and n = 2] pre d0
  show ?thesis by (auto split: prod.splits)
qed

section \<open>start with an unknown mode\<close>

text \<open>
  C7. The mode reaches \<open>start\<close> through the constructor, which is the only place that
  sets it. The constructor with a mode that is neither INTERVAL (0) nor RAF (1) raises
  the invalid-mode error out of its call of \<open>start\<close>, leaves \<open>active = false\<close> and arms
  nothing. In general \<open>start\<close> on a loop with such a mode raises before it arms
  anything: no timer and no refresh request is added, nothing is dispatched,
  \<open>this.loop\<close> is not replaced and \<open>active\<close> keeps its value, so a loop that was
  inactive is inactive afterwards.
\<close>

theorem invalid_mode_raises:
  "(mode this \<noteq> INTERVAL \<and> mode this \<noteq> RAF \<and> timer this = None \<longrightarrow>
      (case start this e of
         (err, this', e') \<Rightarrow>
           err = Some InvalidModeError \<and> active this' = active this \<and> loop this' = loop this
           \<and> intervals e' = intervals e \<and> rafs e' = rafs e
           \<and> dispatched e' = dispatched e))
   \<and> (ToBoolean m \<and> m \<noteq> RAF \<longrightarrow>
      (case constructor r m e of
         (err, this', e') \<Rightarrow>
           err = Some InvalidModeError \<and> \<not> active this' \<and> loop this' = None
           \<and> intervals e' = intervals e \<and> rafs e' = rafs e
           \<and> dispatched e' = dispatched e))"
  by (cases m rule: ToBoolean.cases)
     (auto simp: constructor_def new_fields_def start_def performance_now_def INTERVAL_def
        RAF_def Let_def)

theorem invalid_mode_raises_witness:
  "(case start (new_fields (Number (Fin 60)) (Number (Fin 99))) (fresh_env (\<lambda>k. 0) all_phases) of
      (err, this', e') \<Rightarrow> err = Some InvalidModeError \<and> \<not> active this' \<and> intervals e' = [] \<and> rafs e' = [])
   \<and> (case constructor (Number (Fin 60)) (Number (Fin 99)) (fresh_env (\<lambda>k. 0) all_phases) of
      (err, this', e') \<Rightarrow> err = Some InvalidModeError \<and> \<not> active this' \<and> intervals e' = [] \<and> rafs e' = [])"
proof -
  have pre: "mode (new_fields (Number (Fin 60)) (Number (Fin 99))) \<noteq> INTERVAL
      \<and> mode (new_fields (Number (Fin 60)) (Number (Fin 99))) \<noteq> RAF
      \<and> timer (new_fields (Number (Fin 60)) (Number (Fin 99))) = None"
    by (simp add: new_fields_def INTERVAL_def RAF_def)
  have inactive: "\<not> active (new_fields (Number (Fin 60)) (Number (Fin 99)))"
    by (simp add: new_fields_def)
  have pre2: "ToBoolean (Number (Fin 99)) \<and> Number (Fin 99) \<noteq> RAF"
    by (simp add: RAF_def)
  have env: "intervals (fresh_env (\<lambda>k. 0) all_phases) = []" "rafs (fresh_env (\<lambda>k. 0) all_phases) = []"
    by (simp_all add: fresh_env_def)
  from invalid_mode_raises [of "new_fields (Number (Fin 60)) (Number (Fin 99))"
      "fresh_env (\<lambda>k. 0) all_phases" "Number (Fin 99)" "Number (Fin 60)"]
    pre pre2 env inactive
  show ?thesis by (auto split: prod.splits)
qed

section \<open>Where the code departs from its contract\<close>

subsection \<open>start on a running loop\<close>

lemma start_keeps_timer: "timer (fst (snd (start this e))) = timer this"
  by (simp add: start_def loop_start_def createIntervalLoop_def createRAFLoop_def
      raf_loop_update_def update_def performance_now_def setInterval_def
      requestAnimationFrame_def Let_def split: prod.splits option.splits callback.splits)

text \<open>
  C1. The guard of \<open>start\<close> tests \<open>this.timer\<close>, which no method assigns (the timer
  handle is stored in \<open>this.loop.timer\<close>), and the two resets precede the guard. A loop
  built with a target of 60 in fixed-interval mode, clock readings 0, 20, 40: after one
  firing \<open>totalJitter\<close> is 4 and \<open>frame\<close> is 0; a second \<open>start\<close> then resets them
  to 0 and -1 and arms a second timer beside the first.
\<close>

theorem start_while_running_resets_and_rearms:
  "case constructor (Number (Fin 60)) INTERVAL (fresh_env (\<lambda>k. 20 * of_nat k) h) of
     (err0, this0, e0) \<Rightarrow>
       (case fire_interval 0 this0 e0 of
          (err1, this1, e1) \<Rightarrow>
            (case start this1 e1 of
               (err2, this2, e2) \<Rightarrow>
                 active this1 \<and> totalJitter this1 = Number (Fin 4) \<and> frame this1 = Fin 0
                 \<and> intervals e1 = [(0, Fin 16, IntervalUpdate)]
                 \<and> err2 = None
                 \<and> totalJitter this2 = Number (Fin 0) \<and> frame this2 = Fin (- 1)
                 \<and> intervals e2 = [(0, Fin 16, IntervalUpdate), (1, Fin 16, IntervalUpdate)]))"
  by (simp add: loop_defs)

subsection \<open>stop after a second start\<close>

lemma stop_cancels_current_driver:
  assumes "loop this = Some l" "kind l = IntervalUpdate" "loop_timer l = Some i"
    and "intervals e = [(i, d, cb)]"
  shows "case stop this e of
     (err, this', e') \<Rightarrow> err = None \<and> \<not> active this' \<and> intervals e' = []
        \<and> fire_interval j this' e' = (None, this', e')"
  using assms by (simp add: stop_def loop_stop_def clearInterval_def fire_interval_def)

text \<open>
  C4. \<open>stop\<close> cancels the handle held by the current \<open>this.loop\<close> only. After the
  constructor's \<open>start\<close> and one more \<open>start\<close>, the first driver is still armed when
  \<open>stop\<close> returns, and its next firing invokes the registrant 7: in fixed-interval mode
  (timer 0) and in refresh-sync mode (the first refresh request).
\<close>

theorem stop_leaves_earlier_driver_armed:
  "(case constructor (Number (Fin 60)) INTERVAL (fresh_env (\<lambda>k. 20 * of_nat k) all_phases) of
     (err0, this0, e0) \<Rightarrow>
       (case start (register 7 this0) e0 of
          (err1, this1, e1) \<Rightarrow>
            (case stop this1 e1 of
               (err2, this2, e2) \<Rightarrow>
                 (case fire_interval 0 this2 e2 of
                    (err3, this3, e3) \<Rightarrow>
                      err2 = None \<and> \<not> active this2 \<and> trace e2 = []
                      \<and> trace e3 = [Invoke 7 EarlyUpdate (Fin 20), Invoke 7 Update (Fin 20),
                                    Invoke 7 LateUpdate (Fin 20)]))))
   \<and> (case constructor (Number (Fin 60)) RAF (fresh_env (\<lambda>k. 20 * of_nat k) all_phases) of
     (err0, this0, e0) \<Rightarrow>
       (case start (register 7 this0) e0 of
          (err1, this1, e1) \<Rightarrow>
            (case stop this1 e1 of
               (err2, this2, e2) \<Rightarrow>
                 (case refresh_signal this2 e2 of
                    (err3, this3, e3) \<Rightarrow>
                      err2 = None \<and> \<not> active this2 \<and> trace e2 = []
                      \<and> trace e3 = [Invoke 7 EarlyUpdate (Fin 60), Invoke 7 Update (Fin 60),
                                    Invoke 7 LateUpdate (Fin 60)]))))"
  by (simp add: loop_defs all_phases_def)

subsection \<open>averageJitter after the first tick\<close>

text \<open>
  C6. A loop built with a target of 60 in fixed-interval mode, first firing 20 ms after
  \<open>start\<close>: one tick has been dispatched, \<open>jitter\<close> and \<open>totalJitter\<close> are both 4,
  \<open>frame\<close> is 0, and \<open>averageJitter\<close> is \<open>4 / 0\<close>, that is Infinity.
\<close>

theorem averageJitter_after_first_tick:
  "case constructor (Number (Fin 60)) INTERVAL (fresh_env (\<lambda>k. 20 * of_nat k) h) of
     (err0, this0, e0) \<Rightarrow>
       (case fire_interval 0 this0 e0 of
          (err1, this1, e1) \<Rightarrow>
            dispatched e1 = 1 \<and> jitter this1 = Number (Fin 4)
            \<and> totalJitter this1 = Number (Fin 4) \<and> frame this1 = Fin 0
            \<and> averageJitter this1 = PInf)"
  by (simp add: loop_defs)

subsection \<open>droppedFrame\<close>

lemma eligible_never_dropped: "js_gt f' f \<Longrightarrow> \<not> js_ge (js_sub f f') (Fin 2)"
  by (cases f'; cases f) (simp_all add: js_sub_def)

text \<open>
  C3. A loop built with a target of 60 in refresh-sync mode (interval 16), started at time
  0, refresh signals at 16 and 64: both signals dispatch, \<open>frame\<close> goes from 1 to 4 (three
  intervals between the two dispatched ticks), and \<open>droppedFrame\<close> is set to
  \<open>1 - 4 >= 2\<close>, that is false.
\<close>

theorem droppedFrame_after_three_intervals:
  "case constructor (Number (Fin 60)) RAF (fresh_env late_clock h) of
     (err0, this0, e0) \<Rightarrow>
       (case refresh_signal this0 e0 of
          (err1, this1, e1) \<Rightarrow>
            (case refresh_signal this1 e1 of
               (err2, this2, e2) \<Rightarrow>
                 dispatched e1 = 1 \<and> frame this1 = Fin 1 \<and> lastUpdate this1 = Number (Fin 16)
                 \<and> dispatched e2 = 2 \<and> frame this2 = Fin 4 \<and> lastUpdate this2 = Number (Fin 64)
                 \<and> droppedFrame this2 = Some False))"
  by (simp add: loop_defs late_clock_def)

subsection \<open>The first update of the refresh-sync driver\<close>

lemma capped_start_no_dispatch:
  "ToBoolean rate \<Longrightarrow>
   dispatched (snd (snd (constructor rate RAF e))) = dispatched e"
  by (cases rate rule: ToBoolean.cases)
     (simp_all add: loop_defs split: prod.splits)

text \<open>
  C2. \<open>this.loop.start\<close> calls \<open>update\<close> before it assigns \<open>startTime\<close>, so in that
  call \<open>now - startTime\<close> is NaN and \<open>frame > this.frame\<close> is false. A loop built with a
  target of 60 in refresh-sync mode has dispatched nothing when the constructor returns:
  \<open>frame\<close> is still -1, one refresh request is pending, and \<open>startTime\<close> is the third
  reading of the clock.
\<close>

theorem capped_start_dispatches_nothing:
  "case constructor (Number (Fin 60)) RAF (fresh_env clk h) of
     (err, this, e) \<Rightarrow>
       err = None \<and> active this \<and> dispatched e = 0 \<and> frame this = Fin (- 1)
       \<and> rafs e = [(0, RAFUpdate)]
       \<and> map_option startTime (loop this) = Some (Number (Fin (clk 2)))"
  by (simp add: loop_defs numeral_2_eq_2)

end
